theory Spec2Isabelle
  imports Complex_Main "HOL-Library.Log_Nat"
begin

section \<open>The coupon engine: store (db.js) and ledger routes (server.js)\<close>

text \<open>
  The two JSON files of db.js are the two lists \<open>coupons\<close> and \<open>events\<close> of the server
  state; every db function loads a whole list and saves it back, so a db function is a
  function from state to state. Reading and writing the files succeeds: the fallback of
  \<open>safeReadJSON\<close> to an empty collection is not modelled.

  A request handler of server.js is a function from the state and the request to a
  response and the next state. The handlers run one at a time up to an \<open>await\<close>. Only
  the withdraw-onchain route has one: it checks the request and reads the balance, then
  waits for the transaction to be sent and confirmed, and other handlers run meanwhile.
  The field \<open>awaiting\<close> holds what each waiting handler has kept: the values of its local
  variables.

  What the environment decides is an argument of the handler: the id drawn by
  \<open>generateCouponId\<close>, the time read by \<open>nowIso\<close>, and what the \<open>try\<close> block of the
  withdraw-onchain route did up to the confirmation (it raised, or it returned a
  confirmed signature). The field \<open>transfers\<close> lists the transfers that were confirmed,
  with the recipient and the lamports.

  Amounts are JavaScript numbers, that is IEEE 754 binary64. A finite one is modelled by
  the rational it denotes (the two zeros are one), and sum, difference and product are
  the exact ones rounded to the nearest double, ties to even. A stored coupon is
  modelled as its JSON text reads: \<open>JSON.stringify\<close> writes a number that is not finite
  as \<open>null\<close>. The handlers start from the local variables that the first lines of each
  route compute (\<open>String(x || "").trim()\<close> for the text fields, \<open>Number(value)\<close> for the
  amount).
\<close>

subsection \<open>JavaScript numbers\<close>

datatype number = Finite rat | PosInfinity | NegInfinity | NaN

definition pow2 :: "int \<Rightarrow> rat" where
  "pow2 k = (if 0 \<le> k then 2 ^ nat k else 1 / 2 ^ nat (- k))"

text \<open>For \<open>0 < x\<close>, the exponent \<open>e\<close> with \<open>2 ^ e \<le> x < 2 ^ (e + 1)\<close>.\<close>

definition ilog2 :: "rat \<Rightarrow> int" where
  "ilog2 x =
     (let (p, q) = quotient_of x; d = bitlen p - bitlen q
      in if pow2 d \<le> x then d else d - 1)"

definition round_half_even :: "rat \<Rightarrow> int" where
  "round_half_even y =
     (let f = \<lfloor>y\<rfloor>; d = y - of_int f
      in if d < 1 / 2 then f else if 1 / 2 < d then f + 1 else if even f then f else f + 1)"

text \<open>
  The double nearest to \<open>0 < x\<close>: 53 significant bits, exponents from -1022 (below it
  the spacing stays \<open>2 ^ -1074\<close>), infinity from \<open>2 ^ 1024\<close> on.
\<close>

definition round_pos :: "rat \<Rightarrow> number" where
  "round_pos x =
     (let e = max (ilog2 x) (- 1022);
          ulp = pow2 (e - 52);
          v = of_int (round_half_even (x / ulp)) * ulp
      in if pow2 1024 \<le> v then PosInfinity else Finite v)"

fun negate :: "number \<Rightarrow> number" where
  "negate (Finite v) = Finite (- v)"
| "negate PosInfinity = NegInfinity"
| "negate NegInfinity = PosInfinity"
| "negate NaN = NaN"

definition round_double :: "rat \<Rightarrow> number" where
  "round_double x =
     (if x = 0 then Finite 0 else if 0 < x then round_pos x else negate (round_pos (- x)))"

text \<open>\<open>a + b\<close>, \<open>a - b\<close> and \<open>a * b\<close> on finite numbers.\<close>

definition js_add :: "rat \<Rightarrow> rat \<Rightarrow> number" where
  "js_add a b = round_double (a + b)"

definition js_sub :: "rat \<Rightarrow> rat \<Rightarrow> number" where
  "js_sub a b = round_double (a - b)"

definition js_mul :: "rat \<Rightarrow> rat \<Rightarrow> number" where
  "js_mul a b = round_double (a * b)"

text \<open>\<open>Math.round\<close>: the nearest integer, halves go up.\<close>

fun math_round :: "number \<Rightarrow> number" where
  "math_round (Finite x) = Finite (of_int \<lfloor>x + 1 / 2\<rfloor>)"
| "math_round PosInfinity = PosInfinity"
| "math_round NegInfinity = NegInfinity"
| "math_round NaN = NaN"

text \<open>A number as \<open>JSON.stringify\<close> writes it and \<open>JSON.parse\<close> reads it back.\<close>

fun json_number :: "number \<Rightarrow> rat option" where
  "json_number (Finite x) = Some x"
| "json_number PosInfinity = None"
| "json_number NegInfinity = None"
| "json_number NaN = None"

text \<open>\<open>Number(x || 0)\<close> on a stored number or null.\<close>

fun number_or_0 :: "rat option \<Rightarrow> rat" where
  "number_or_0 None = 0"
| "number_or_0 (Some x) = (if x = 0 then 0 else x)"

subsection \<open>Data\<close>

record coupon =
  c_id :: string
  c_label :: string
  c_owner_wallet :: string
  c_initial_amount_sol :: rat
  c_remaining_amount_sol :: "rat option"
  c_expires_at :: "string option"
  c_pool_address :: string
  c_created_at :: string

datatype event_type = T_create | T_deposit | T_withdraw | T_pay

record event =
  e_coupon_id :: string
  e_owner_wallet :: string
  e_type :: event_type
  e_amount_sol :: rat
  e_to_address :: string
  e_note :: "string option"
  e_tx_sig :: "string option"
  e_created_at :: string

text \<open>A confirmed transfer from the engine wallet: the recipient and the lamports.\<close>

record transfer =
  t_to :: string
  t_lamports :: number

text \<open>
  The local variables of a withdraw-onchain handler that waits for its transaction:
  \<open>id\<close>, \<open>ownerWallet\<close>, \<open>toAddress\<close>, \<open>amount\<close> and \<open>currentRemaining\<close>.
\<close>

record pending =
  p_id :: string
  p_ownerWallet :: string
  p_toAddress :: string
  p_amount :: rat
  p_currentRemaining :: rat

record server =
  POOL_ADDRESS :: string
  coupons :: "coupon list"
  events :: "event list"
  transfers :: "transfer list"
  awaiting :: "pending list"

definition initial_server :: "string \<Rightarrow> server" where
  "initial_server pool =
     \<lparr>POOL_ADDRESS = pool, coupons = [], events = [], transfers = [], awaiting = []\<rparr>"

text \<open>The second argument of \<open>getCouponById\<close>, which the function tests for truthiness.\<close>

datatype owner_arg = Undefined | Null | Str string

fun truthy :: "owner_arg \<Rightarrow> bool" where
  "truthy Undefined = False"
| "truthy Null = False"
| "truthy (Str w) = (w \<noteq> [])"

text \<open>\<open>x || null\<close> on an optional string: the empty string is falsy.\<close>

fun or_null :: "string option \<Rightarrow> string option" where
  "or_null None = None"
| "or_null (Some x) = (if x = [] then None else Some x)"

subsection \<open>db.js\<close>

definition getCouponsByOwner :: "server \<Rightarrow> string \<Rightarrow> coupon list" where
  "getCouponsByOwner s ownerWallet =
     filter (\<lambda>c. c_owner_wallet c = ownerWallet) (coupons s)"

definition getCouponById :: "server \<Rightarrow> string \<Rightarrow> owner_arg \<Rightarrow> coupon option" where
  "getCouponById s i ownerWallet =
     find (\<lambda>c. c_id c = i \<and> (\<not> truthy ownerWallet \<or> Str (c_owner_wallet c) = ownerWallet))
       (coupons s)"

definition createCoupon :: "server \<Rightarrow> coupon \<Rightarrow> coupon \<times> server" where
  "createCoupon s c = (c, s\<lparr>coupons := coupons s @ [c]\<rparr>)"

text \<open>\<open>Array.prototype.findIndex\<close>, with \<open>None\<close> for -1.\<close>

fun findIndex :: "('a \<Rightarrow> bool) \<Rightarrow> 'a list \<Rightarrow> nat option" where
  "findIndex P [] = None"
| "findIndex P (x # xs) = (if P x then Some 0 else map_option Suc (findIndex P xs))"

definition updateCoupon ::
  "server \<Rightarrow> string \<Rightarrow> string \<Rightarrow> (coupon \<Rightarrow> coupon) \<Rightarrow> coupon option \<times> server" where
  "updateCoupon s i ownerWallet mutator =
     (case findIndex (\<lambda>c. c_id c = i \<and> c_owner_wallet c = ownerWallet) (coupons s) of
        None \<Rightarrow> (None, s)
      | Some idx \<Rightarrow>
          let c = mutator (coupons s ! idx)
          in (Some c, s\<lparr>coupons := (coupons s)[idx := c]\<rparr>))"

definition addEvent :: "server \<Rightarrow> event \<Rightarrow> event \<times> server" where
  "addEvent s e = (e, s\<lparr>events := events s @ [e]\<rparr>)"

definition getEventsForCoupon :: "server \<Rightarrow> string \<Rightarrow> string \<Rightarrow> event list" where
  "getEventsForCoupon s couponId ownerWallet =
     filter (\<lambda>e. e_coupon_id e = couponId \<and> e_owner_wallet e = ownerWallet) (events s)"

subsection \<open>server.js: helpers\<close>

fun parseAmountSol :: "number \<Rightarrow> rat option" where
  "parseAmountSol (Finite n) = (if n \<le> 0 then None else Some n)"
| "parseAmountSol PosInfinity = None"
| "parseAmountSol NegInfinity = None"
| "parseAmountSol NaN = None"

text \<open>\<open>LAMPORTS_PER_SOL\<close> of @solana/web3.js.\<close>

definition LAMPORTS_PER_SOL :: rat where
  "LAMPORTS_PER_SOL = 1000000000"

subsection \<open>server.js: responses\<close>

text \<open>\<open>Suspended\<close>: the handler waits and has not answered.\<close>

datatype response =
    Error nat string
  | ErrorDetails nat string string
  | Created coupon
  | CouponEvent "coupon option" event
  | CouponEventSig "coupon option" event string
  | CouponEvents coupon "event list"
  | CouponList string string "(coupon \<times> event list) list"
  | Suspended

text \<open>What the body of the \<open>try\<close> block did up to the confirmation of the transaction.\<close>

datatype transfer_outcome = Raised string | Confirmed string

subsection \<open>server.js: routes\<close>

definition get_coupons :: "server \<Rightarrow> string \<Rightarrow> response" where
  "get_coupons s wallet =
     (if wallet = [] then Error 400 ''wallet query param is required''
      else CouponList wallet (POOL_ADDRESS s)
             (map (\<lambda>c. (c, getEventsForCoupon s (c_id c) (c_owner_wallet c)))
                (getCouponsByOwner s wallet)))"

definition post_coupons ::
  "server \<Rightarrow> string \<Rightarrow> string \<Rightarrow> number \<Rightarrow> string option \<Rightarrow> string \<Rightarrow> string
     \<Rightarrow> response \<times> server" where
  "post_coupons s ownerWallet couponLabel amount_sol expiry new_id createdAt =
     (if ownerWallet = [] then (Error 400 ''wallet is required'', s)
      else if couponLabel = [] then (Error 400 ''label is required'', s)
      else case parseAmountSol amount_sol of
        None \<Rightarrow> (Error 400 ''amount_sol must be a positive number'', s)
      | Some amount \<Rightarrow>
          let c = \<lparr>c_id = new_id, c_label = couponLabel, c_owner_wallet = ownerWallet,
                   c_initial_amount_sol = amount, c_remaining_amount_sol = Some amount,
                   c_expires_at = or_null expiry, c_pool_address = POOL_ADDRESS s,
                   c_created_at = createdAt\<rparr>;
              s1 = snd (createCoupon s c);
              s2 = snd (addEvent s1
                     \<lparr>e_coupon_id = new_id, e_owner_wallet = ownerWallet, e_type = T_create,
                      e_amount_sol = amount, e_to_address = ownerWallet, e_note = None,
                      e_tx_sig = None, e_created_at = createdAt\<rparr>)
          in (Created c, s2))"

definition post_deposit ::
  "server \<Rightarrow> string \<Rightarrow> string \<Rightarrow> number \<Rightarrow> string option \<Rightarrow> string \<Rightarrow> response \<times> server" where
  "post_deposit s i ownerWallet amount_sol tx_sig now =
     (if ownerWallet = [] then (Error 400 ''wallet is required'', s)
      else case parseAmountSol amount_sol of
        None \<Rightarrow> (Error 400 ''amount_sol must be a positive number'', s)
      | Some amount \<Rightarrow>
          (case getCouponById s i (Str ownerWallet) of
             None \<Rightarrow> (Error 404 ''coupon not found for this wallet'', s)
           | Some coupon \<Rightarrow>
               let (updated, s1) = updateCoupon s i ownerWallet
                     (\<lambda>c. c\<lparr>c_remaining_amount_sol :=
                              json_number
                                (js_add (number_or_0 (c_remaining_amount_sol c)) amount)\<rparr>);
                   (ev, s2) = addEvent s1
                     \<lparr>e_coupon_id = i, e_owner_wallet = ownerWallet, e_type = T_deposit,
                      e_amount_sol = amount, e_to_address = ownerWallet, e_note = None,
                      e_tx_sig = or_null tx_sig, e_created_at = now\<rparr>
               in (CouponEvent updated ev, s2)))"

text \<open>
  The withdraw-onchain route up to the \<open>try\<close> block: the checks, and the local variables
  the rest of the handler keeps.
\<close>

definition withdraw_validate ::
  "server \<Rightarrow> string \<Rightarrow> string \<Rightarrow> number \<Rightarrow> string \<Rightarrow> response + pending" where
  "withdraw_validate s i ownerWallet amount_sol toAddress =
     (if ownerWallet = [] then Inl (Error 400 ''wallet is required'')
      else if toAddress = [] then Inl (Error 400 ''recipient is required'')
      else case parseAmountSol amount_sol of
        None \<Rightarrow> Inl (Error 400 ''amount_sol must be a positive number'')
      | Some amount \<Rightarrow>
          (case getCouponById s i (Str ownerWallet) of
             None \<Rightarrow> Inl (Error 404 ''coupon not found for this wallet'')
           | Some coupon \<Rightarrow>
               let currentRemaining = number_or_0 (c_remaining_amount_sol coupon)
               in if amount > currentRemaining
                  then Inl (Error 400 ''insufficient coupon balance'')
                  else Inr \<lparr>p_id = i, p_ownerWallet = ownerWallet, p_toAddress = toAddress,
                            p_amount = amount, p_currentRemaining = currentRemaining\<rparr>))"

text \<open>
  The \<open>try\<close> block and its \<open>catch\<close>, in the state the handler finds when the transaction
  has been confirmed or has raised.
\<close>

definition withdraw_settle ::
  "server \<Rightarrow> pending \<Rightarrow> transfer_outcome \<Rightarrow> string \<Rightarrow> response \<times> server" where
  "withdraw_settle s p outcome now =
     (case outcome of
        Raised message \<Rightarrow> (ErrorDetails 500 ''on-chain withdraw failed'' message, s)
      | Confirmed sig \<Rightarrow>
          let s0 = s\<lparr>transfers := transfers s @
                     [\<lparr>t_to = p_toAddress p,
                       t_lamports = math_round (js_mul (p_amount p) LAMPORTS_PER_SOL)\<rparr>]\<rparr>;
              (updated, s1) = updateCoupon s0 (p_id p) (p_ownerWallet p)
                (\<lambda>c. c\<lparr>c_remaining_amount_sol :=
                         json_number (js_sub (p_currentRemaining p) (p_amount p))\<rparr>);
              (ev, s2) = addEvent s1
                \<lparr>e_coupon_id = p_id p, e_owner_wallet = p_ownerWallet p,
                 e_type = T_withdraw, e_amount_sol = p_amount p,
                 e_to_address = p_toAddress p, e_note = None,
                 e_tx_sig = Some sig, e_created_at = now\<rparr>
          in (CouponEventSig updated ev sig, s2))"

text \<open>The withdraw-onchain route when no other handler runs while it waits.\<close>

definition post_withdraw_onchain ::
  "server \<Rightarrow> string \<Rightarrow> string \<Rightarrow> number \<Rightarrow> string \<Rightarrow> transfer_outcome \<Rightarrow> string
     \<Rightarrow> response \<times> server" where
  "post_withdraw_onchain s i ownerWallet amount_sol toAddress outcome now =
     (case withdraw_validate s i ownerWallet amount_sol toAddress of
        Inl response \<Rightarrow> (response, s)
      | Inr p \<Rightarrow> withdraw_settle s p outcome now)"

definition post_pay ::
  "server \<Rightarrow> string \<Rightarrow> string \<Rightarrow> number \<Rightarrow> string \<Rightarrow> string option \<Rightarrow> string
     \<Rightarrow> response \<times> server" where
  "post_pay s ownerWallet couponId amount_sol merchantWallet note now =
     (if ownerWallet = [] then (Error 400 ''wallet is required'', s)
      else if couponId = [] then (Error 400 ''coupon_id is required'', s)
      else if merchantWallet = [] then (Error 400 ''merchant is required'', s)
      else case parseAmountSol amount_sol of
        None \<Rightarrow> (Error 400 ''amount_sol must be a positive number'', s)
      | Some amount \<Rightarrow>
          (case getCouponById s couponId (Str ownerWallet) of
             None \<Rightarrow> (Error 404 ''coupon not found for this wallet'', s)
           | Some coupon \<Rightarrow>
               let currentRemaining = number_or_0 (c_remaining_amount_sol coupon)
               in if amount > currentRemaining
                  then (Error 400 ''insufficient coupon balance'', s)
                  else
                    let (updated, s1) = updateCoupon s couponId ownerWallet
                          (\<lambda>c. c\<lparr>c_remaining_amount_sol :=
                                   json_number (js_sub currentRemaining amount)\<rparr>);
                        (ev, s2) = addEvent s1
                          \<lparr>e_coupon_id = couponId, e_owner_wallet = ownerWallet,
                           e_type = T_pay, e_amount_sol = amount,
                           e_to_address = merchantWallet, e_note = or_null note,
                           e_tx_sig = None, e_created_at = now\<rparr>
                    in (CouponEvent updated ev, s2)))"

definition get_history :: "server \<Rightarrow> string \<Rightarrow> string \<Rightarrow> response" where
  "get_history s i wallet =
     (if wallet = [] then Error 400 ''wallet query param is required''
      else case getCouponById s i (Str wallet) of
        None \<Rightarrow> Error 404 ''coupon not found for this wallet''
      | Some coupon \<Rightarrow> CouponEvents coupon (getEventsForCoupon s i wallet))"

subsection \<open>Sequences of ledger operations\<close>

text \<open>
  A request is handled in one step, except that a withdraw-onchain request may also be
  handled in two: \<open>WithdrawStart\<close> runs the handler until it waits, \<open>WithdrawResume k\<close>
  runs the rest of the \<open>k\<close>-th waiting handler, and does nothing when fewer handlers
  wait. Other steps may come between the two. Nothing in the store changes between the
  sending of the transaction and its confirmation, so the two waits of the handler are
  one step.
\<close>

datatype request =
    Create string string number "string option" string string
  | Deposit string string number "string option" string
  | WithdrawOnchain string string number string transfer_outcome string
  | Pay string string number string "string option" string
  | WithdrawStart string string number string
  | WithdrawResume nat transfer_outcome string

fun handle :: "server \<Rightarrow> request \<Rightarrow> response \<times> server" where
  "handle s (Create w l a x new_id now) = post_coupons s w l a x new_id now"
| "handle s (Deposit i w a sig now) = post_deposit s i w a sig now"
| "handle s (WithdrawOnchain i w a r outcome now) = post_withdraw_onchain s i w a r outcome now"
| "handle s (Pay w i a m note now) = post_pay s w i a m note now"
| "handle s (WithdrawStart i w a r) =
     (case withdraw_validate s i w a r of
        Inl response \<Rightarrow> (response, s)
      | Inr p \<Rightarrow> (Suspended, s\<lparr>awaiting := awaiting s @ [p]\<rparr>))"
| "handle s (WithdrawResume k outcome now) =
     (if k < length (awaiting s)
      then withdraw_settle (s\<lparr>awaiting := take k (awaiting s) @ drop (Suc k) (awaiting s)\<rparr>)
             (awaiting s ! k) outcome now
      else (Suspended, s))"

fun run :: "server \<Rightarrow> request list \<Rightarrow> server" where
  "run s [] = s"
| "run s (r # rs) = run (snd (handle s r)) rs"

text \<open>The steps in which no handler waits while another one runs.\<close>

fun atomic :: "request \<Rightarrow> bool" where
  "atomic (WithdrawStart i w a r) = False"
| "atomic (WithdrawResume k outcome now) = False"
| "atomic (Create w l a x new_id now) = True"
| "atomic (Deposit i w a sig now) = True"
| "atomic (WithdrawOnchain i w a r outcome now) = True"
| "atomic (Pay w i a m note now) = True"

subsection \<open>What a response carries\<close>

fun response_coupons :: "response \<Rightarrow> coupon list" where
  "response_coupons (Error n m) = []"
| "response_coupons (ErrorDetails n m d) = []"
| "response_coupons (Created c) = [c]"
| "response_coupons (CouponEvent u e) = (case u of None \<Rightarrow> [] | Some c \<Rightarrow> [c])"
| "response_coupons (CouponEventSig u e sig) = (case u of None \<Rightarrow> [] | Some c \<Rightarrow> [c])"
| "response_coupons (CouponEvents c es) = [c]"
| "response_coupons (CouponList w p xs) = map fst xs"
| "response_coupons Suspended = []"

fun response_events :: "response \<Rightarrow> event list" where
  "response_events (Error n m) = []"
| "response_events (ErrorDetails n m d) = []"
| "response_events (Created c) = []"
| "response_events (CouponEvent u e) = [e]"
| "response_events (CouponEventSig u e sig) = [e]"
| "response_events (CouponEvents c es) = es"
| "response_events (CouponList w p xs) = concat (map snd xs)"
| "response_events Suspended = []"

subsection \<open>The balance of a coupon and its events\<close>

text \<open>The events of a coupon are the ones the store returns for its id and owner.\<close>

definition events_of :: "server \<Rightarrow> coupon \<Rightarrow> event list" where
  "events_of s c = getEventsForCoupon s (c_id c) (c_owner_wallet c)"

text \<open>
  The exact sum of the amounts of one type of event, and the exact signed sum over all
  types: the sums of the specification.
\<close>

definition amount_sum :: "event_type \<Rightarrow> event list \<Rightarrow> rat" where
  "amount_sum t es = sum_list (map e_amount_sol (filter (\<lambda>e. e_type e = t) es))"

fun signed_amount :: "event \<Rightarrow> rat" where
  "signed_amount e =
     (case e_type e of
        T_create \<Rightarrow> e_amount_sol e
      | T_deposit \<Rightarrow> e_amount_sol e
      | T_withdraw \<Rightarrow> - e_amount_sol e
      | T_pay \<Rightarrow> - e_amount_sol e)"

definition signed_sum :: "event list \<Rightarrow> rat" where
  "signed_sum es = sum_list (map signed_amount es)"

text \<open>
  What the routes compute: a deposit adds its amount to the balance and a withdrawal or
  a payment subtracts it, each time with the rounding of the doubles and with a balance
  that overflowed stored as null and read back as 0. A create event leaves the balance.
  \<open>replay a es\<close> starts from the balance \<open>a\<close> and goes through the events in their order.
\<close>

fun apply_event :: "rat option \<Rightarrow> event \<Rightarrow> rat option" where
  "apply_event r e =
     (case e_type e of
        T_create \<Rightarrow> r
      | T_deposit \<Rightarrow> json_number (js_add (number_or_0 r) (e_amount_sol e))
      | T_withdraw \<Rightarrow> json_number (js_sub (number_or_0 r) (e_amount_sol e))
      | T_pay \<Rightarrow> json_number (js_sub (number_or_0 r) (e_amount_sol e)))"

definition replay :: "rat \<Rightarrow> event list \<Rightarrow> rat option" where
  "replay a es = foldl apply_event (Some a) es"

text \<open>
  The right-hand sides of the two equations of the specification, with exact sums:
  the initial amount plus the deposits minus the withdrawals minus the payments, and the
  initial amount plus the signed sum of all the events.
\<close>

definition stated_balance :: "server \<Rightarrow> coupon \<Rightarrow> rat" where
  "stated_balance s c =
     c_initial_amount_sol c + amount_sum T_deposit (events_of s c)
     - amount_sum T_withdraw (events_of s c) - amount_sum T_pay (events_of s c)"

definition stated_signed_balance :: "server \<Rightarrow> coupon \<Rightarrow> rat" where
  "stated_signed_balance s c = c_initial_amount_sol c + signed_sum (events_of s c)"

definition coupon_key :: "coupon \<Rightarrow> string \<times> string" where
  "coupon_key c = (c_id c, c_owner_wallet c)"

definition event_key :: "event \<Rightarrow> string \<times> string" where
  "event_key e = (e_coupon_id e, e_owner_wallet e)"

text \<open>
  A coupon agrees with its events: the first one is its create event, with the initial
  amount, no other one is a create event, and the remaining amount is the replay of the
  other ones from the initial amount.
\<close>

definition agrees :: "server \<Rightarrow> coupon \<Rightarrow> bool" where
  "agrees s c =
     (case events_of s c of
        [] \<Rightarrow> False
      | e0 # es \<Rightarrow>
          e_type e0 = T_create \<and> e_amount_sol e0 = c_initial_amount_sol c
          \<and> list_all (\<lambda>e. e_type e \<noteq> T_create) es
          \<and> c_remaining_amount_sol c = replay (c_initial_amount_sol c) es)"

definition ledger_inv :: "server \<Rightarrow> bool" where
  "ledger_inv s \<longleftrightarrow>
     distinct (map coupon_key (coupons s))
     \<and> list_all (\<lambda>e. event_key e \<in> coupon_key ` set (coupons s)) (events s)
     \<and> list_all (agrees s) (coupons s)"

text \<open>
  The balances are not negative, and every waiting withdrawal asks for no more than the
  balance it has read.
\<close>

definition balances_ok :: "server \<Rightarrow> bool" where
  "balances_ok s \<longleftrightarrow>
     list_all (\<lambda>c. 0 \<le> number_or_0 (c_remaining_amount_sol c)) (coupons s)
     \<and> list_all (\<lambda>p. p_amount p \<le> p_currentRemaining p) (awaiting s)"

text \<open>
  \<open>generateCouponId\<close> draws four random bytes and the store does not look for the id among
  the stored coupons. In a run whose ids are unused, every \<open>Create\<close> draws an id that no
  stored coupon of the same owner has.
\<close>

fun new_ids_unused :: "server \<Rightarrow> request list \<Rightarrow> bool" where
  "new_ids_unused s [] = True"
| "new_ids_unused s (r # rs) =
     ((case r of
         Create w l a x new_id now \<Rightarrow>
           list_all (\<lambda>c. \<not> (c_id c = new_id \<and> c_owner_wallet c = w)) (coupons s)
       | _ \<Rightarrow> True)
      \<and> new_ids_unused (snd (handle s r)) rs)"

subsection \<open>Runs and stores for the concrete instances\<close>

definition demo_recipient :: string where
  "demo_recipient = ''8hGDXBJqpCZvWaDcbvXykRSb1bKbbJ5Ji4c85ubYvkaA''"

definition demo_requests :: "request list" where
  "demo_requests =
     [Create ''W1'' ''Lunch'' (Finite (5 / 2)) None ''CPN-00AA-00BB'' ''t0'',
      Deposit ''CPN-00AA-00BB'' ''W1'' (Finite 1) (Some ''SIG0'') ''t1'',
      Pay ''W1'' ''CPN-00AA-00BB'' (Finite 1) ''M1'' (Some ''coffee'') ''t2'',
      WithdrawOnchain ''CPN-00AA-00BB'' ''W1'' (Finite 1) demo_recipient
        (Confirmed ''SIG123'') ''t3'']"

definition demo_coupon :: "rat \<Rightarrow> rat \<Rightarrow> coupon" where
  "demo_coupon a r =
     \<lparr>c_id = ''CPN-00AA-00BB'', c_label = ''Lunch'', c_owner_wallet = ''W1'',
      c_initial_amount_sol = a, c_remaining_amount_sol = Some r, c_expires_at = None,
      c_pool_address = ''POOL'', c_created_at = ''t0''\<rparr>"

definition demo_event ::
  "event_type \<Rightarrow> rat \<Rightarrow> string \<Rightarrow> string option \<Rightarrow> string option \<Rightarrow> string \<Rightarrow> event" where
  "demo_event t a to n sig now =
     \<lparr>e_coupon_id = ''CPN-00AA-00BB'', e_owner_wallet = ''W1'', e_type = t, e_amount_sol = a,
      e_to_address = to, e_note = n, e_tx_sig = sig, e_created_at = now\<rparr>"

definition demo_server :: server where
  "demo_server =
     \<lparr>POOL_ADDRESS = ''POOL'',
      coupons = [demo_coupon (5 / 2) (3 / 2)],
      events = [demo_event T_create (5 / 2) ''W1'' None None ''t0'',
                demo_event T_deposit 1 ''W1'' None (Some ''SIG0'') ''t1'',
                demo_event T_pay 1 ''M1'' (Some ''coffee'') None ''t2'',
                demo_event T_withdraw 1 demo_recipient None (Some ''SIG123'') ''t3''],
      transfers = [\<lparr>t_to = demo_recipient, t_lamports = Finite 1000000000\<rparr>],
      awaiting = []\<rparr>"

definition other_coupon :: coupon where
  "other_coupon =
     \<lparr>c_id = ''CPN-00AA-00BB'', c_label = ''Dinner'', c_owner_wallet = ''W2'',
      c_initial_amount_sol = 4, c_remaining_amount_sol = Some 4, c_expires_at = None,
      c_pool_address = ''POOL'', c_created_at = ''t4''\<rparr>"

definition other_event :: event where
  "other_event =
     \<lparr>e_coupon_id = ''CPN-00AA-00BB'', e_owner_wallet = ''W2'', e_type = T_create,
      e_amount_sol = 4, e_to_address = ''W2'', e_note = None, e_tx_sig = None,
      e_created_at = ''t4''\<rparr>"

definition two_owner_server :: server where
  "two_owner_server =
     demo_server\<lparr>coupons := coupons demo_server @ [other_coupon],
                  events := events demo_server @ [other_event]\<rparr>"

text \<open>A coupon of 1 with its create event, and the double \<open>2 ^ -60\<close>.\<close>

definition unit_server :: server where
  "unit_server =
     \<lparr>POOL_ADDRESS = ''POOL'',
      coupons = [demo_coupon 1 1],
      events = [demo_event T_create 1 ''W1'' None None ''t0''],
      transfers = [], awaiting = []\<rparr>"

definition tiny :: rat where
  "tiny = 1 / 2 ^ 60"

text \<open>
  A run of one Create, and three runs: the second Create draws the id of the first for the same owner; two
  deposits of \<open>2 ^ -53\<close> on a coupon of 1; a payment handled while a withdrawal waits.
\<close>

definition create_requests :: "request list" where
  "create_requests =
     [Create ''W1'' ''Lunch'' (Finite (5 / 2)) None ''CPN-00AA-00BB'' ''t0'']"

definition collision_requests :: "request list" where
  "collision_requests =
     [Create ''W1'' ''Lunch'' (Finite (5 / 2)) None ''CPN-00AA-00BB'' ''t0'',
      Create ''W1'' ''Lunch'' (Finite 1) None ''CPN-00AA-00BB'' ''t0'',
      Deposit ''CPN-00AA-00BB'' ''W1'' (Finite 1) None ''t1'']"

definition rounding_requests :: "request list" where
  "rounding_requests =
     [Create ''W1'' ''Lunch'' (Finite 1) None ''CPN-00AA-00BB'' ''t0'',
      Deposit ''CPN-00AA-00BB'' ''W1'' (Finite (1 / 2 ^ 53)) None ''t1'',
      Deposit ''CPN-00AA-00BB'' ''W1'' (Finite (1 / 2 ^ 53)) None ''t2'']"

definition overlap_prefix :: "request list" where
  "overlap_prefix =
     [Create ''W1'' ''Lunch'' (Finite (3 / 2)) None ''CPN-00AA-00BB'' ''t0'',
      WithdrawStart ''CPN-00AA-00BB'' ''W1'' (Finite 1) demo_recipient,
      Pay ''W1'' ''CPN-00AA-00BB'' (Finite 1) ''M1'' None ''t1'']"

definition overlap_requests :: "request list" where
  "overlap_requests = overlap_prefix @ [WithdrawResume 0 (Confirmed ''SIG123'') ''t2'']"

section \<open>Rounding and the store lookups\<close>

lemma pow2_pos: "0 < pow2 k"
  by (simp add: pow2_def)

lemma round_half_even_nonneg: "0 \<le> y \<Longrightarrow> 0 \<le> round_half_even y"
  by (auto simp: round_half_even_def Let_def)

lemma round_pos_nonneg:
  assumes "0 < x" and "round_pos x = Finite v"
  shows "0 \<le> v"
proof -
  let ?ulp = "pow2 (max (ilog2 x) (- 1022) - 52)"
  have "0 \<le> x / ?ulp" using assms(1) pow2_pos [of "max (ilog2 x) (- 1022) - 52"] by simp
  then have "0 \<le> round_half_even (x / ?ulp)" by (rule round_half_even_nonneg)
  then have "0 \<le> of_int (round_half_even (x / ?ulp)) * ?ulp"
    using pow2_pos [of "max (ilog2 x) (- 1022) - 52"] by simp
  with assms(2) show ?thesis
    by (simp add: round_pos_def Let_def split: if_splits)
qed

lemma round_double_nonneg: "0 \<le> x \<Longrightarrow> 0 \<le> number_or_0 (json_number (round_double x))"
proof (cases "x = 0")
  case True
  then show ?thesis by (simp add: round_double_def)
next
  case False
  assume "0 \<le> x"
  with False have pos: "0 < x" by simp
  show ?thesis
  proof (cases "round_pos x")
    case (Finite v)
    with pos round_pos_nonneg [OF pos Finite] show ?thesis by (simp add: round_double_def)
  qed (use pos in \<open>simp_all add: round_double_def\<close>)
qed

lemma js_sub_nonneg: "b \<le> a \<Longrightarrow> 0 \<le> number_or_0 (json_number (js_sub a b))"
  by (simp add: js_sub_def round_double_nonneg)

lemma js_add_nonneg: "0 \<le> a \<Longrightarrow> 0 \<le> b \<Longrightarrow> 0 \<le> number_or_0 (json_number (js_add a b))"
  by (simp add: js_add_def round_double_nonneg)

lemma parseAmountSol_positive: "parseAmountSol n = Some a \<Longrightarrow> 0 < a"
  by (cases n) (auto split: if_splits)

lemma findIndex_of_find:
  "find P xs = Some c \<Longrightarrow> \<exists>k. findIndex P xs = Some k \<and> k < length xs \<and> xs ! k = c"
  by (induction xs) (auto split: if_splits)

lemma findIndex_SomeD:
  "findIndex P xs = Some k \<Longrightarrow> k < length xs \<and> P (xs ! k) \<and> find P xs = Some (xs ! k)"
  by (induction xs arbitrary: k) (auto split: if_splits)

lemma getCouponById_Str:
  "w \<noteq> [] \<Longrightarrow>
   getCouponById s i (Str w) = find (\<lambda>c. c_id c = i \<and> c_owner_wallet c = w) (coupons s)"
  by (simp add: getCouponById_def)

lemma getCouponById_index:
  assumes "w \<noteq> []" and "getCouponById s i (Str w) = Some c"
  shows "\<exists>k. findIndex (\<lambda>c. c_id c = i \<and> c_owner_wallet c = w) (coupons s) = Some k
            \<and> k < length (coupons s) \<and> coupons s ! k = c"
  using assms findIndex_of_find by (fastforce simp: getCouponById_Str)

lemma withdraw_validate_InrD:
  assumes "withdraw_validate s i w n r = Inr p"
  shows "w \<noteq> [] \<and> r \<noteq> [] \<and> parseAmountSol n = Some (p_amount p)
         \<and> p_id p = i \<and> p_ownerWallet p = w \<and> p_toAddress p = r
         \<and> p_amount p \<le> p_currentRemaining p
         \<and> (\<exists>c. getCouponById s i (Str w) = Some c
                \<and> p_currentRemaining p = number_or_0 (c_remaining_amount_sol c))"
  using assms
  by (auto simp: withdraw_validate_def Let_def split: if_splits option.splits)

text \<open>
  Handled in two steps with nothing between them, a withdraw-onchain request leaves the
  state that the route handled in one step leaves.
\<close>

lemma withdraw_in_two_steps:
  "snd (handle (snd (handle s (WithdrawStart i w n r)))
          (WithdrawResume (length (awaiting s)) outcome now))
     = snd (handle s (WithdrawOnchain i w n r outcome now))"
  by (cases "withdraw_validate s i w n r") (simp_all add: post_withdraw_onchain_def)

section \<open>The balances are not negative\<close>

lemma balance_update:
  assumes "list_all (\<lambda>c. 0 \<le> number_or_0 (c_remaining_amount_sol c)) cs"
    and "0 \<le> number_or_0 (c_remaining_amount_sol c')"
  shows "list_all (\<lambda>c. 0 \<le> number_or_0 (c_remaining_amount_sol c)) (cs[k := c'])"
  using assms set_update_subset_insert [of cs k c'] by (auto simp: list_all_iff)

lemma balances_ok_cong:
  "coupons s' = coupons s \<Longrightarrow> awaiting s' = awaiting s \<Longrightarrow> balances_ok s' = balances_ok s"
  by (simp add: balances_ok_def)

lemma updateCoupon_balances:
  assumes "balances_ok s" and "\<And>c. 0 \<le> number_or_0 (c_remaining_amount_sol (f c))"
  shows "balances_ok (snd (updateCoupon s i w f))"
  using assms
  by (auto simp: updateCoupon_def balances_ok_def Let_def balance_update split: option.splits)

lemma addEvent_balances: "balances_ok (snd (addEvent s e)) = balances_ok s"
  by (simp add: addEvent_def balances_ok_def)

lemma post_coupons_balances:
  assumes "balances_ok s"
  shows "balances_ok (snd (post_coupons s w l a x new_id now))"
  using assms
  by (auto simp: post_coupons_def createCoupon_def addEvent_def Let_def balances_ok_def
      dest: parseAmountSol_positive split: option.splits)

lemma post_deposit_balances:
  assumes "balances_ok s"
  shows "balances_ok (snd (post_deposit s i w a sig now))"
proof (cases "w \<noteq> [] \<and> parseAmountSol a \<noteq> None \<and> getCouponById s i (Str w) \<noteq> None")
  case False
  then show ?thesis using assms by (auto simp: post_deposit_def split: option.splits)
next
  case True
  then obtain amount c where a: "parseAmountSol a = Some amount"
    and c: "getCouponById s i (Str w) = Some c" and w: "w \<noteq> []" by auto
  let ?f = "\<lambda>c. c\<lparr>c_remaining_amount_sol :=
                    json_number (js_add (number_or_0 (c_remaining_amount_sol c)) amount)\<rparr>"
  obtain k where k: "findIndex (\<lambda>c. c_id c = i \<and> c_owner_wallet c = w) (coupons s) = Some k"
    and kl: "k < length (coupons s)"
    using getCouponById_index [OF w c] by auto
  have old: "0 \<le> number_or_0 (c_remaining_amount_sol (coupons s ! k))"
    using assms kl by (simp add: balances_ok_def list_all_length)
  have "0 \<le> number_or_0 (c_remaining_amount_sol (?f (coupons s ! k)))"
    using old parseAmountSol_positive [OF a] by (simp add: js_add_nonneg)
  then have "list_all (\<lambda>c. 0 \<le> number_or_0 (c_remaining_amount_sol c))
               ((coupons s)[k := ?f (coupons s ! k)])"
    using assms by (simp add: balances_ok_def balance_update)
  then show ?thesis
    using assms
    by (simp add: post_deposit_def updateCoupon_def addEvent_def Let_def a c w k
        balances_ok_def)
qed

lemma post_pay_balances:
  assumes "balances_ok s"
  shows "balances_ok (snd (post_pay s w i a m note now))"
proof (cases "w \<noteq> [] \<and> i \<noteq> [] \<and> m \<noteq> [] \<and> parseAmountSol a \<noteq> None
              \<and> getCouponById s i (Str w) \<noteq> None")
  case False
  then show ?thesis using assms by (auto simp: post_pay_def split: option.splits)
next
  case True
  then obtain amount c where a: "parseAmountSol a = Some amount"
    and c: "getCouponById s i (Str w) = Some c" and w: "w \<noteq> []" "i \<noteq> []" "m \<noteq> []" by auto
  show ?thesis
  proof (cases "amount > number_or_0 (c_remaining_amount_sol c)")
    case True
    then show ?thesis using assms by (simp add: post_pay_def a c w)
  next
    case False
    let ?f = "\<lambda>x. x\<lparr>c_remaining_amount_sol :=
                 json_number (js_sub (number_or_0 (c_remaining_amount_sol c)) amount)\<rparr>"
    have "balances_ok (snd (updateCoupon s i w ?f))"
      using assms False by (intro updateCoupon_balances) (simp_all add: js_sub_nonneg)
    then have "balances_ok (snd (addEvent (snd (updateCoupon s i w ?f)) e))" for e
      by (simp add: addEvent_balances)
    then show ?thesis
      using False by (simp add: post_pay_def a c w Let_def split_beta)
  qed
qed

lemma withdraw_settle_balances:
  assumes "balances_ok s" and "p_amount p \<le> p_currentRemaining p"
  shows "balances_ok (snd (withdraw_settle s p outcome now))"
proof (cases outcome)
  case (Raised message)
  then show ?thesis using assms(1) by (simp add: withdraw_settle_def)
next
  case (Confirmed sig)
  let ?s0 = "s\<lparr>transfers := transfers s @
                 [\<lparr>t_to = p_toAddress p,
                   t_lamports = math_round (js_mul (p_amount p) LAMPORTS_PER_SOL)\<rparr>]\<rparr>"
  let ?f = "\<lambda>x. x\<lparr>c_remaining_amount_sol :=
               json_number (js_sub (p_currentRemaining p) (p_amount p))\<rparr>"
  have "balances_ok ?s0" using assms(1) by (simp add: balances_ok_def)
  then have "balances_ok (snd (updateCoupon ?s0 (p_id p) (p_ownerWallet p) ?f))"
    using assms(2) by (intro updateCoupon_balances) (simp_all add: js_sub_nonneg)
  then have "balances_ok
               (snd (addEvent (snd (updateCoupon ?s0 (p_id p) (p_ownerWallet p) ?f)) e))" for e
    by (simp add: addEvent_balances)
  then show ?thesis
    by (simp add: withdraw_settle_def Confirmed Let_def split_beta)
qed

lemma post_withdraw_onchain_balances:
  assumes "balances_ok s"
  shows "balances_ok (snd (post_withdraw_onchain s i w a r outcome now))"
proof (cases "withdraw_validate s i w a r")
  case (Inl response)
  then show ?thesis using assms by (simp add: post_withdraw_onchain_def)
next
  case (Inr p)
  then show ?thesis
    using withdraw_settle_balances [OF assms] withdraw_validate_InrD [OF Inr]
    by (simp add: post_withdraw_onchain_def)
qed

lemma withdraw_start_balances:
  assumes "balances_ok s"
  shows "balances_ok (snd (handle s (WithdrawStart i w a r)))"
proof (cases "withdraw_validate s i w a r")
  case (Inl response)
  then show ?thesis using assms by simp
next
  case (Inr p)
  then show ?thesis
    using assms withdraw_validate_InrD [OF Inr] by (simp add: balances_ok_def)
qed

lemma withdraw_resume_balances:
  assumes "balances_ok s"
  shows "balances_ok (snd (handle s (WithdrawResume k outcome now)))"
proof (cases "k < length (awaiting s)")
  case False
  then show ?thesis using assms by simp
next
  case True
  let ?s' = "s\<lparr>awaiting := take k (awaiting s) @ drop (Suc k) (awaiting s)\<rparr>"
  have "set (take k (awaiting s) @ drop (Suc k) (awaiting s)) \<subseteq> set (awaiting s)"
    using set_take_subset [of k "awaiting s"] set_drop_subset [of "Suc k" "awaiting s"]
    by auto
  then have ok: "balances_ok ?s'"
    using assms by (auto simp: balances_ok_def list_all_iff)
  have p: "p_amount (awaiting s ! k) \<le> p_currentRemaining (awaiting s ! k)"
    using assms True by (simp add: balances_ok_def list_all_length)
  show ?thesis
    using withdraw_settle_balances [OF ok p] True by simp
qed

lemma handle_balances:
  assumes "balances_ok s"
  shows "balances_ok (snd (handle s r))"
proof (cases r)
  case (Create w l a x new_id now)
  show ?thesis unfolding Create handle.simps by (rule post_coupons_balances [OF assms])
next
  case (Deposit i w a sig now)
  show ?thesis unfolding Deposit handle.simps by (rule post_deposit_balances [OF assms])
next
  case (WithdrawOnchain i w a r outcome now)
  show ?thesis unfolding WithdrawOnchain handle.simps
    by (rule post_withdraw_onchain_balances [OF assms])
next
  case (Pay w i a m n now)
  show ?thesis unfolding Pay handle.simps by (rule post_pay_balances [OF assms])
next
  case (WithdrawStart i w a r)
  show ?thesis unfolding WithdrawStart by (rule withdraw_start_balances [OF assms])
next
  case (WithdrawResume k outcome now)
  show ?thesis unfolding WithdrawResume by (rule withdraw_resume_balances [OF assms])
qed

lemma run_balances: "balances_ok s \<Longrightarrow> balances_ok (run s rs)"
proof (induction rs arbitrary: s)
  case Nil
  then show ?case by simp
next
  case (Cons r rs)
  have "balances_ok (run (snd (handle s r)) rs)"
    by (rule Cons.IH) (rule handle_balances [OF Cons.prems])
  then show ?case by simp
qed

section \<open>The coupons agree with their events\<close>

lemma replay_snoc: "replay a (es @ [e]) = apply_event (replay a es) e"
  by (simp add: replay_def)

lemma ledger_inv_initial: "ledger_inv (initial_server pool)"
  by (simp add: ledger_inv_def initial_server_def)

lemma agrees_cong:
  "events_of s' c' = events_of s c \<Longrightarrow> c_initial_amount_sol c' = c_initial_amount_sol c \<Longrightarrow>
   c_remaining_amount_sol c' = c_remaining_amount_sol c \<Longrightarrow> agrees s' c' = agrees s c"
  by (simp add: agrees_def split: list.splits)

lemma ledger_inv_create:
  assumes inv: "ledger_inv s"
    and fresh: "\<forall>c \<in> set (coupons s). \<not> (c_id c = c_id n \<and> c_owner_wallet c = c_owner_wallet n)"
    and cs: "coupons s' = coupons s @ [n]"
    and es: "events s' = events s @ [e]"
    and e: "e_coupon_id e = c_id n" "e_owner_wallet e = c_owner_wallet n" "e_type e = T_create"
           "e_amount_sol e = c_initial_amount_sol n"
    and n: "c_remaining_amount_sol n = Some (c_initial_amount_sol n)"
  shows "ledger_inv s'"
proof -
  have old: "\<forall>x \<in> set (events s). \<not> (e_coupon_id x = c_id n \<and> e_owner_wallet x = c_owner_wallet n)"
    using inv fresh by (fastforce simp: ledger_inv_def event_key_def coupon_key_def list_all_iff)
  then have new_events: "events_of s' n = [e]"
    using es e by (auto simp: events_of_def getEventsForCoupon_def filter_empty_conv)
  have old_events: "events_of s' c = events_of s c" if "c \<in> set (coupons s)" for c
    using that fresh es e by (auto simp: events_of_def getEventsForCoupon_def)
  have "distinct (map coupon_key (coupons s'))"
    using inv fresh cs by (auto simp: ledger_inv_def coupon_key_def)
  moreover have "\<forall>x \<in> set (events s'). event_key x \<in> coupon_key ` set (coupons s')"
    using inv cs es e by (auto simp: ledger_inv_def coupon_key_def event_key_def list_all_iff)
  moreover have "agrees s' n"
    using new_events e n by (simp add: agrees_def replay_def)
  moreover have "agrees s' c" if "c \<in> set (coupons s)" for c
  proof -
    have "agrees s' c = agrees s c" by (rule agrees_cong) (simp_all add: old_events that)
    then show ?thesis using inv that by (simp add: ledger_inv_def list_all_iff)
  qed
  ultimately show ?thesis by (auto simp: ledger_inv_def list_all_iff cs)
qed

lemma ledger_inv_update:
  assumes inv: "ledger_inv s"
    and k: "findIndex (\<lambda>c. c_id c = i \<and> c_owner_wallet c = w) (coupons s) = Some k"
    and cs: "coupons s' = (coupons s)[k := (coupons s ! k)\<lparr>c_remaining_amount_sol := r\<rparr>]"
    and es: "events s' = events s @ [e]"
    and e: "e_coupon_id e = i" "e_owner_wallet e = w" "e_type e \<noteq> T_create"
    and r: "r = apply_event (c_remaining_amount_sol (coupons s ! k)) e"
  shows "ledger_inv s'"
proof -
  let ?old = "coupons s ! k"
  let ?new = "?old\<lparr>c_remaining_amount_sol := r\<rparr>"
  from k have kl: "k < length (coupons s)" and kid: "c_id ?old = i" "c_owner_wallet ?old = w"
    using findIndex_SomeD [OF k] by auto
  have dist: "distinct (map coupon_key (coupons s))" using inv by (simp add: ledger_inv_def)
  then have dc: "distinct (coupons s)" by (simp add: distinct_map)
  have key_new: "coupon_key ?new = coupon_key ?old" by (simp add: coupon_key_def)
  have keys: "map coupon_key (coupons s') = map coupon_key (coupons s)"
    using kl by (simp add: cs map_update key_new list_update_same_conv)
  have set_new: "set (coupons s') = insert ?new (set (coupons s) - {?old})"
    using dc kl by (simp add: cs set_update_distinct)
  have old_in: "?old \<in> set (coupons s)" using kl by simp
  have other: "coupon_key c \<noteq> (i, w)" if "c \<in> set (coupons s)" "c \<noteq> ?old" for c
  proof
    assume "coupon_key c = (i, w)"
    then have "coupon_key c = coupon_key ?old" using kid by (simp add: coupon_key_def)
    then have "c = ?old" using dist that(1) old_in by (meson distinct_map inj_onD)
    then show False using that(2) by simp
  qed
  have ev_new: "events_of s' ?new = events_of s ?old @ [e]"
    using es e kid by (simp add: events_of_def getEventsForCoupon_def)
  have ev_other: "events_of s' c = events_of s c" if "c \<in> set (coupons s)" "c \<noteq> ?old" for c
    using other [OF that] es e by (auto simp: events_of_def getEventsForCoupon_def coupon_key_def)
  have "distinct (map coupon_key (coupons s'))" using dist keys by simp
  moreover have "\<forall>x \<in> set (events s'). event_key x \<in> coupon_key ` set (coupons s')"
  proof -
    have "set (map coupon_key (coupons s')) = set (map coupon_key (coupons s))"
      using keys by simp
    then have "coupon_key ` set (coupons s') = coupon_key ` set (coupons s)" by simp
    moreover have "event_key e \<in> coupon_key ` set (coupons s)"
      using old_in kid e by (force simp: event_key_def coupon_key_def)
    ultimately show ?thesis using inv es by (auto simp: ledger_inv_def list_all_iff)
  qed
  moreover have "agrees s' ?new"
  proof -
    have "agrees s ?old" using inv old_in by (simp add: ledger_inv_def list_all_iff)
    then obtain e0 es0 where ev: "events_of s ?old = e0 # es0"
      and e0: "e_type e0 = T_create" "e_amount_sol e0 = c_initial_amount_sol ?old"
      and nc: "list_all (\<lambda>e. e_type e \<noteq> T_create) es0"
      and rem: "c_remaining_amount_sol ?old = replay (c_initial_amount_sol ?old) es0"
      by (auto simp: agrees_def split: list.splits)
    have "events_of s' ?new = e0 # (es0 @ [e])" using ev_new ev by simp
    moreover have "r = replay (c_initial_amount_sol ?old) (es0 @ [e])"
      using r rem by (simp only: replay_snoc)
    ultimately show ?thesis using e0 nc e(3) by (simp add: agrees_def)
  qed
  moreover have "agrees s' c" if "c \<in> set (coupons s)" "c \<noteq> ?old" for c
  proof -
    have "agrees s' c = agrees s c" by (rule agrees_cong) (simp_all add: ev_other that)
    then show ?thesis using inv that(1) by (simp add: ledger_inv_def list_all_iff)
  qed
  ultimately show ?thesis by (auto simp: ledger_inv_def list_all_iff set_new)
qed

lemma post_coupons_inv:
  assumes inv: "ledger_inv s"
    and fresh: "\<forall>c \<in> set (coupons s). \<not> (c_id c = new_id \<and> c_owner_wallet c = w)"
  shows "ledger_inv (snd (post_coupons s w l a x new_id now))"
proof (cases "w = [] \<or> l = [] \<or> parseAmountSol a = None")
  case True
  then show ?thesis using inv by (auto simp: post_coupons_def)
next
  case False
  then obtain amount where a: "parseAmountSol a = Some amount" by auto
  let ?n = "\<lparr>c_id = new_id, c_label = l, c_owner_wallet = w,
          c_initial_amount_sol = amount, c_remaining_amount_sol = Some amount,
          c_expires_at = or_null x, c_pool_address = POOL_ADDRESS s, c_created_at = now\<rparr>"
  let ?e = "\<lparr>e_coupon_id = new_id, e_owner_wallet = w,
          e_type = T_create, e_amount_sol = amount, e_to_address = w, e_note = None,
          e_tx_sig = None, e_created_at = now\<rparr>"
  let ?s' = "snd (post_coupons s w l a x new_id now)"
  have s': "?s' = s\<lparr>coupons := coupons s @ [?n], events := events s @ [?e]\<rparr>"
    using False a by (simp add: post_coupons_def createCoupon_def addEvent_def Let_def)
  have "ledger_inv ?s'"
  proof (rule ledger_inv_create [OF inv, where n = ?n and e = ?e])
    show "\<forall>c \<in> set (coupons s). \<not> (c_id c = c_id ?n \<and> c_owner_wallet c = c_owner_wallet ?n)"
      using fresh by simp
    show "coupons ?s' = coupons s @ [?n]" by (simp only: s') simp
    show "events ?s' = events s @ [?e]" by (simp only: s') simp
  qed simp_all
  then show ?thesis .
qed

lemma post_deposit_inv:
  assumes "ledger_inv s"
  shows "ledger_inv (snd (post_deposit s i w a sig now))"
proof (cases "w \<noteq> [] \<and> parseAmountSol a \<noteq> None \<and> getCouponById s i (Str w) \<noteq> None")
  case False
  then show ?thesis using assms by (auto simp: post_deposit_def split: option.splits)
next
  case True
  then obtain amount c where a: "parseAmountSol a = Some amount"
    and c: "getCouponById s i (Str w) = Some c" and w: "w \<noteq> []" by auto
  obtain k where
    k: "findIndex (\<lambda>c. c_id c = i \<and> c_owner_wallet c = w) (coupons s) = Some k"
    and ck: "coupons s ! k = c"
    using getCouponById_index [OF w c] by auto
  show ?thesis
    by (rule ledger_inv_update [OF assms k,
          where r = "json_number (js_add (number_or_0 (c_remaining_amount_sol c)) amount)"
          and e = "\<lparr>e_coupon_id = i, e_owner_wallet = w,
          e_type = T_deposit, e_amount_sol = amount, e_to_address = w, e_note = None,
          e_tx_sig = or_null sig, e_created_at = now\<rparr>"])
       (simp_all add: post_deposit_def updateCoupon_def addEvent_def Let_def a c w k ck)
qed

lemma post_pay_inv:
  assumes "ledger_inv s"
  shows "ledger_inv (snd (post_pay s w i a m note now))"
proof (cases "w \<noteq> [] \<and> i \<noteq> [] \<and> m \<noteq> [] \<and> parseAmountSol a \<noteq> None
              \<and> getCouponById s i (Str w) \<noteq> None")
  case False
  then show ?thesis using assms by (auto simp: post_pay_def split: option.splits)
next
  case True
  then obtain amount c where a: "parseAmountSol a = Some amount"
    and c: "getCouponById s i (Str w) = Some c" and w: "w \<noteq> []" "i \<noteq> []" "m \<noteq> []" by auto
  obtain k where
    k: "findIndex (\<lambda>c. c_id c = i \<and> c_owner_wallet c = w) (coupons s) = Some k"
    and ck: "coupons s ! k = c"
    using getCouponById_index [OF w(1) c] by auto
  show ?thesis
  proof (cases "amount > number_or_0 (c_remaining_amount_sol c)")
    case True
    then show ?thesis using assms by (simp add: post_pay_def a c w)
  next
    case False
    show ?thesis
      by (rule ledger_inv_update [OF assms k,
            where r = "json_number (js_sub (number_or_0 (c_remaining_amount_sol c)) amount)"
            and e = "\<lparr>e_coupon_id = i, e_owner_wallet = w,
            e_type = T_pay, e_amount_sol = amount, e_to_address = m, e_note = or_null note,
            e_tx_sig = None, e_created_at = now\<rparr>"])
         (simp_all add: post_pay_def updateCoupon_def addEvent_def Let_def a c w k ck False)
  qed
qed

lemma post_withdraw_onchain_inv:
  assumes "ledger_inv s"
  shows "ledger_inv (snd (post_withdraw_onchain s i w a r outcome now))"
proof (cases "withdraw_validate s i w a r")
  case (Inl response)
  then show ?thesis using assms by (simp add: post_withdraw_onchain_def)
next
  case (Inr p)
  from withdraw_validate_InrD [OF Inr] obtain c where
    w: "w \<noteq> []" and p: "p_id p = i" "p_ownerWallet p = w" "p_toAddress p = r"
    and c: "getCouponById s i (Str w) = Some c"
    and cr: "p_currentRemaining p = number_or_0 (c_remaining_amount_sol c)"
    by auto
  obtain k where
    k: "findIndex (\<lambda>c. c_id c = i \<and> c_owner_wallet c = w) (coupons s) = Some k"
    and ck: "coupons s ! k = c"
    using getCouponById_index [OF w c] by auto
  show ?thesis
  proof (cases outcome)
    case (Raised message)
    then show ?thesis using assms by (simp add: post_withdraw_onchain_def Inr withdraw_settle_def)
  next
    case (Confirmed sig)
    show ?thesis
      by (rule ledger_inv_update [OF assms k,
            where r = "json_number (js_sub (number_or_0 (c_remaining_amount_sol c)) (p_amount p))"
            and e = "\<lparr>e_coupon_id = i, e_owner_wallet = w,
            e_type = T_withdraw, e_amount_sol = p_amount p, e_to_address = r, e_note = None,
            e_tx_sig = Some sig, e_created_at = now\<rparr>"])
         (simp_all add: post_withdraw_onchain_def Inr withdraw_settle_def updateCoupon_def
            addEvent_def Let_def p cr k ck Confirmed)
  qed
qed

lemma run_inv:
  "ledger_inv s \<Longrightarrow> list_all atomic rs \<Longrightarrow> new_ids_unused s rs \<Longrightarrow> ledger_inv (run s rs)"
proof (induction rs arbitrary: s)
  case Nil
  then show ?case by simp
next
  case (Cons r rs)
  have "ledger_inv (snd (handle s r))"
  proof (cases r)
    case (Create w l a x new_id now)
    then show ?thesis
      using Cons.prems by (simp add: post_coupons_inv list_all_iff)
  next
    case (Deposit i w a sig now)
    then show ?thesis using Cons.prems(1) by (simp add: post_deposit_inv)
  next
    case (WithdrawOnchain i w a r outcome now)
    then show ?thesis using Cons.prems(1) by (simp add: post_withdraw_onchain_inv)
  next
    case (Pay w i a m n now)
    then show ?thesis using Cons.prems(1) by (simp add: post_pay_inv)
  next
    case (WithdrawStart i w a r)
    then show ?thesis using Cons.prems(2) by simp
  next
    case (WithdrawResume k outcome now)
    then show ?thesis using Cons.prems(2) by simp
  qed
  then show ?case using Cons by simp
qed

section \<open>The concrete runs\<close>

lemma js_add_5_2_1: "js_add (5 / 2) 1 = Finite (7 / 2)"
  by code_simp

lemma js_sub_7_2_1: "js_sub (7 / 2) 1 = Finite (5 / 2)"
  by code_simp

lemma js_sub_5_2_1: "js_sub (5 / 2) 1 = Finite (3 / 2)"
  by code_simp

lemma js_sub_3_2_1: "js_sub (3 / 2) 1 = Finite (1 / 2)"
  by code_simp

lemma js_add_1_half_ulp: "js_add 1 (1 / 2 ^ 53) = Finite 1"
  by code_simp

lemma js_sub_1_tiny: "js_sub 1 tiny = Finite 1"
  by code_simp

lemma lamports_1: "math_round (js_mul 1 LAMPORTS_PER_SOL) = Finite 1000000000"
  by code_simp

lemma demo_recipient_nonempty: "demo_recipient \<noteq> []"
  by (simp add: demo_recipient_def)

lemma tiny_positive: "0 < tiny \<and> tiny \<le> 1 \<and> tiny \<noteq> 0"
  by (simp add: tiny_def)

lemmas route_defs =
  post_coupons_def post_deposit_def post_pay_def post_withdraw_onchain_def
  withdraw_validate_def withdraw_settle_def createCoupon_def addEvent_def updateCoupon_def
  getCouponById_def Let_def

lemma run_demo: "run (initial_server ''POOL'') demo_requests = demo_server"
  by (simp add: demo_requests_def demo_server_def demo_coupon_def demo_event_def
      initial_server_def route_defs demo_recipient_nonempty
      js_add_5_2_1 js_sub_7_2_1 js_sub_5_2_1 lamports_1)

lemma demo_ids_unused: "new_ids_unused (initial_server ''POOL'') demo_requests"
  by (simp add: demo_requests_def initial_server_def)

lemma demo_atomic: "list_all atomic demo_requests"
  by (simp add: demo_requests_def)

lemma run_create:
  "coupons (run (initial_server ''POOL'') create_requests) = [demo_coupon (5 / 2) (5 / 2)]
   \<and> events (run (initial_server ''POOL'') create_requests)
     = [demo_event T_create (5 / 2) ''W1'' None None ''t0'']"
  by (simp add: create_requests_def demo_coupon_def demo_event_def
      initial_server_def route_defs)

lemma run_collision:
  "coupons (run (initial_server ''POOL'') collision_requests)
     = [demo_coupon (5 / 2) (7 / 2), demo_coupon 1 1]
   \<and> events (run (initial_server ''POOL'') collision_requests)
     = [demo_event T_create (5 / 2) ''W1'' None None ''t0'',
        demo_event T_create 1 ''W1'' None None ''t0'',
        demo_event T_deposit 1 ''W1'' None None ''t1'']"
  by (simp add: collision_requests_def demo_coupon_def demo_event_def
      initial_server_def route_defs js_add_5_2_1)

lemma run_rounding:
  "coupons (run (initial_server ''POOL'') rounding_requests) = [demo_coupon 1 1]
   \<and> events (run (initial_server ''POOL'') rounding_requests)
     = [demo_event T_create 1 ''W1'' None None ''t0'',
        demo_event T_deposit (1 / 2 ^ 53) ''W1'' None None ''t1'',
        demo_event T_deposit (1 / 2 ^ 53) ''W1'' None None ''t2'']"
  using js_add_1_half_ulp
  by (simp add: rounding_requests_def demo_coupon_def demo_event_def
      initial_server_def route_defs)

lemma run_overlap_prefix:
  "coupons (run (initial_server ''POOL'') overlap_prefix) = [demo_coupon (3 / 2) (1 / 2)]
   \<and> events (run (initial_server ''POOL'') overlap_prefix)
     = [demo_event T_create (3 / 2) ''W1'' None None ''t0'',
        demo_event T_pay 1 ''M1'' None None ''t1'']"
  by (simp add: overlap_prefix_def demo_coupon_def demo_event_def
      initial_server_def route_defs demo_recipient_nonempty js_sub_3_2_1)

lemma run_overlap:
  "coupons (run (initial_server ''POOL'') overlap_requests) = [demo_coupon (3 / 2) (1 / 2)]
   \<and> events (run (initial_server ''POOL'') overlap_requests)
     = [demo_event T_create (3 / 2) ''W1'' None None ''t0'',
        demo_event T_pay 1 ''M1'' None None ''t1'',
        demo_event T_withdraw 1 demo_recipient None (Some ''SIG123'') ''t2'']"
  by (simp add: overlap_requests_def overlap_prefix_def demo_coupon_def demo_event_def
      initial_server_def route_defs demo_recipient_nonempty js_sub_3_2_1)

section \<open>The balance invariants\<close>

text \<open>
  Claim C1, as the specification states it: \<open>remaining_amount_sol\<close> is the initial amount
  plus the deposits minus the withdrawals minus the payments. It fails in three ways.
  When a second Create draws the id of a coupon of the same owner, the deposit that
  follows goes to the first coupon and its event counts for both: the second coupon
  holds 1 and the equation gives 2. Two deposits of \<open>2 ^ -53\<close> on a coupon of 1 are both
  rounded away: the coupon holds 1 and the equation gives \<open>1 + 2 ^ -52\<close>, which is a
  double. A payment of 1 handled while a withdrawal of 1 waits is overwritten by the
  withdrawal, which writes the balance it had read minus 1: the coupon of 1.5 holds 0.5
  and the equation gives -0.5.
\<close>

theorem balance_equation_counterexample:
  "coupons (run (initial_server ''POOL'') collision_requests) ! 1 = demo_coupon 1 1
   \<and> c_remaining_amount_sol (demo_coupon 1 1) = Some 1
   \<and> stated_balance (run (initial_server ''POOL'') collision_requests) (demo_coupon 1 1) = 2
   \<and> coupons (run (initial_server ''POOL'') rounding_requests) = [demo_coupon 1 1]
   \<and> stated_balance (run (initial_server ''POOL'') rounding_requests) (demo_coupon 1 1)
       = 1 + 1 / 2 ^ 52
   \<and> coupons (run (initial_server ''POOL'') overlap_requests) = [demo_coupon (3 / 2) (1 / 2)]
   \<and> c_remaining_amount_sol (demo_coupon (3 / 2) (1 / 2)) = Some (1 / 2)
   \<and> stated_balance (run (initial_server ''POOL'') overlap_requests)
        (demo_coupon (3 / 2) (1 / 2)) = - 1 / 2"
  using run_collision run_rounding run_overlap
  by (simp add: stated_balance_def events_of_def getEventsForCoupon_def amount_sum_def
      demo_coupon_def demo_event_def)

text \<open>
  Claim C1, amended. After every sequence of Create, Deposit, WithdrawOnchain and Pay
  requests from the empty store in which no handler runs while a withdrawal waits and
  every Create draws an id that no coupon of the owner has, the \<open>remaining_amount_sol\<close>
  of every coupon is what its events give from \<open>initial_amount_sol\<close>, taken in their
  order: each deposit adds its amount and each withdrawal and payment subtracts it, in
  double arithmetic (each result rounded, a balance that overflowed being null and
  counting as 0 from then on).
\<close>

theorem remaining_is_replay_of_events:
  assumes "list_all atomic rs"
    and "new_ids_unused (initial_server pool) rs"
    and "c \<in> set (coupons (run (initial_server pool) rs))"
  shows "c_remaining_amount_sol c =
           replay (c_initial_amount_sol c) (events_of (run (initial_server pool) rs) c)"
proof -
  have "ledger_inv (run (initial_server pool) rs)"
    using assms(1,2) by (simp add: run_inv ledger_inv_initial)
  with assms(3) have "agrees (run (initial_server pool) rs) c"
    by (simp add: ledger_inv_def list_all_iff)
  then show ?thesis
    by (auto simp: agrees_def replay_def split: list.splits)
qed

text \<open>
  The run of \<open>demo_requests\<close>: a coupon of 2.5, a deposit of 1, a payment of 1 and a
  withdrawal of 1 leave 1.5.
\<close>

theorem remaining_is_replay_of_events_witness:
  "list_all atomic demo_requests
   \<and> new_ids_unused (initial_server ''POOL'') demo_requests
   \<and> demo_coupon (5 / 2) (3 / 2) \<in> set (coupons (run (initial_server ''POOL'') demo_requests))
   \<and> replay (5 / 2)
        (events_of (run (initial_server ''POOL'') demo_requests) (demo_coupon (5 / 2) (3 / 2)))
       = Some (3 / 2)"
proof -
  have h3: "demo_coupon (5 / 2) (3 / 2)
              \<in> set (coupons (run (initial_server ''POOL'') demo_requests))"
    by (simp add: run_demo demo_server_def)
  from remaining_is_replay_of_events [OF demo_atomic demo_ids_unused h3]
       demo_atomic demo_ids_unused h3
  show ?thesis by (simp add: demo_coupon_def)
qed

text \<open>
  Claim C2. After every sequence of requests from the empty store, a withdrawal waiting
  or not while others are handled, the \<open>remaining_amount_sol\<close> of every stored coupon is
  never a negative number.
\<close>

theorem remaining_never_negative:
  "\<forall>c \<in> set (coupons (run (initial_server pool) rs)).
     \<forall>r. c_remaining_amount_sol c = Some r \<longrightarrow> 0 \<le> r"
proof -
  have "balances_ok (run (initial_server pool) rs)"
    by (rule run_balances) (simp add: balances_ok_def initial_server_def)
  then have "\<forall>c \<in> set (coupons (run (initial_server pool) rs)).
               0 \<le> number_or_0 (c_remaining_amount_sol c)"
    by (simp add: balances_ok_def list_all_iff)
  then show ?thesis by (auto split: if_splits)
qed

theorem remaining_never_negative_witness:
  "demo_coupon (3 / 2) (1 / 2) \<in> set (coupons (run (initial_server ''POOL'') overlap_requests))
   \<and> c_remaining_amount_sol (demo_coupon (3 / 2) (1 / 2)) = Some (1 / 2)
   \<and> (0 :: rat) \<le> 1 / 2"
proof -
  have h: "demo_coupon (3 / 2) (1 / 2)
             \<in> set (coupons (run (initial_server ''POOL'') overlap_requests))"
    using run_overlap by simp
  have r: "c_remaining_amount_sol (demo_coupon (3 / 2) (1 / 2)) = Some (1 / 2)"
    by (simp add: demo_coupon_def)
  from remaining_never_negative [of "''POOL''" overlap_requests] h r
  show ?thesis by blast
qed

text \<open>
  Claim C3, as the specification states it: \<open>remaining_amount_sol\<close> is
  \<open>initial_amount_sol\<close> plus the signed sum of all the coupon's events, the create event
  adding. It fails right after Create: the coupon of 2.5 has one create event of 2.5, so
  the right-hand side is 5. The signed sum alone, without the initial amount, fails in
  the three runs of claim C1: with the id drawn twice the second coupon holds 1 and the
  sum of its events is 4.5; with the two deposits rounded away the coupon holds 1 and the
  sum is \<open>1 + 2 ^ -52\<close>; with the payment handled while the withdrawal waits the coupon
  holds 0.5 and the sum is -0.5.
\<close>

theorem initial_plus_signed_sum_counterexample:
  "coupons (run (initial_server ''POOL'') create_requests) = [demo_coupon (5 / 2) (5 / 2)]
   \<and> c_remaining_amount_sol (demo_coupon (5 / 2) (5 / 2)) = Some (5 / 2)
   \<and> stated_signed_balance (run (initial_server ''POOL'') create_requests)
        (demo_coupon (5 / 2) (5 / 2)) = 5
   \<and> coupons (run (initial_server ''POOL'') collision_requests) ! 1 = demo_coupon 1 1
   \<and> c_remaining_amount_sol (demo_coupon 1 1) = Some 1
   \<and> signed_sum (events_of (run (initial_server ''POOL'') collision_requests)
        (demo_coupon 1 1)) = 9 / 2
   \<and> coupons (run (initial_server ''POOL'') rounding_requests) = [demo_coupon 1 1]
   \<and> signed_sum (events_of (run (initial_server ''POOL'') rounding_requests)
        (demo_coupon 1 1)) = 1 + 1 / 2 ^ 52
   \<and> coupons (run (initial_server ''POOL'') overlap_requests) = [demo_coupon (3 / 2) (1 / 2)]
   \<and> c_remaining_amount_sol (demo_coupon (3 / 2) (1 / 2)) = Some (1 / 2)
   \<and> signed_sum (events_of (run (initial_server ''POOL'') overlap_requests)
        (demo_coupon (3 / 2) (1 / 2))) = - 1 / 2"
  using run_create run_collision run_rounding run_overlap
  by (simp add: stated_signed_balance_def events_of_def getEventsForCoupon_def
      signed_sum_def demo_coupon_def demo_event_def)

text \<open>
  Claim C3, amended. After every sequence of requests from the empty store in which no
  handler runs while a withdrawal waits and every Create draws an id that no coupon of
  the owner has, the events of every coupon begin with its create event, whose amount is
  \<open>initial_amount_sol\<close>, no other one is a create event, and \<open>remaining_amount_sol\<close> is
  what the events give taken in their order: the create event gives its amount, each
  deposit adds its amount and each withdrawal and payment subtracts it, in double
  arithmetic. The initial amount enters once, through the create event.
\<close>

theorem remaining_from_create_event:
  assumes "list_all atomic rs"
    and "new_ids_unused (initial_server pool) rs"
    and "c \<in> set (coupons (run (initial_server pool) rs))"
  shows "\<exists>e0 es. events_of (run (initial_server pool) rs) c = e0 # es
           \<and> e_type e0 = T_create \<and> e_amount_sol e0 = c_initial_amount_sol c
           \<and> list_all (\<lambda>e. e_type e \<noteq> T_create) es
           \<and> c_remaining_amount_sol c = replay (e_amount_sol e0) es"
proof -
  have "ledger_inv (run (initial_server pool) rs)"
    using assms(1,2) by (simp add: run_inv ledger_inv_initial)
  with assms(3) have "agrees (run (initial_server pool) rs) c"
    by (simp add: ledger_inv_def list_all_iff)
  then show ?thesis
    by (auto simp: agrees_def split: list.splits)
qed

theorem remaining_from_create_event_witness:
  "list_all atomic demo_requests
   \<and> new_ids_unused (initial_server ''POOL'') demo_requests
   \<and> demo_coupon (5 / 2) (3 / 2) \<in> set (coupons (run (initial_server ''POOL'') demo_requests))
   \<and> events_of (run (initial_server ''POOL'') demo_requests) (demo_coupon (5 / 2) (3 / 2))
       = demo_event T_create (5 / 2) ''W1'' None None ''t0'' # tl (events demo_server)
   \<and> replay (5 / 2) (tl (events demo_server)) = Some (3 / 2)"
proof -
  have h3: "demo_coupon (5 / 2) (3 / 2)
              \<in> set (coupons (run (initial_server ''POOL'') demo_requests))"
    by (simp add: run_demo demo_server_def)
  have ev: "events_of (run (initial_server ''POOL'') demo_requests) (demo_coupon (5 / 2) (3 / 2))
              = demo_event T_create (5 / 2) ''W1'' None None ''t0'' # tl (events demo_server)"
    by (simp add: run_demo demo_server_def events_of_def getEventsForCoupon_def
        demo_coupon_def demo_event_def)
  from remaining_from_create_event [OF demo_atomic demo_ids_unused h3]
       demo_atomic demo_ids_unused h3 ev
  show ?thesis by (auto simp: demo_coupon_def demo_event_def)
qed

section \<open>The ledger operations\<close>

text \<open>
  Claim C4. A WithdrawOnchain call whose transfer raises leaves the coupons and the
  events as they were; when the call reached the transfer (owner and recipient present,
  amount positive, coupon found, balance sufficient) the response is the failure
  "on-chain withdraw failed" with status 500 and the message of the error.
\<close>

theorem withdraw_failed_transfer_changes_nothing:
  "coupons (snd (post_withdraw_onchain s i w n r (Raised message) now)) = coupons s
   \<and> events (snd (post_withdraw_onchain s i w n r (Raised message) now)) = events s
   \<and> (w \<noteq> [] \<and> r \<noteq> [] \<and> parseAmountSol n = Some a
        \<and> getCouponById s i (Str w) = Some c
        \<and> a \<le> number_or_0 (c_remaining_amount_sol c)
      \<longrightarrow> fst (post_withdraw_onchain s i w n r (Raised message) now)
            = ErrorDetails 500 ''on-chain withdraw failed'' message)"
  by (auto simp: post_withdraw_onchain_def withdraw_validate_def withdraw_settle_def Let_def
      split: option.splits)

theorem withdraw_failed_transfer_changes_nothing_witness:
  "parseAmountSol (Finite 1) = Some 1
   \<and> getCouponById demo_server ''CPN-00AA-00BB'' (Str ''W1'')
       = Some (demo_coupon (5 / 2) (3 / 2))
   \<and> 1 \<le> number_or_0 (c_remaining_amount_sol (demo_coupon (5 / 2) (3 / 2)))
   \<and> coupons (snd (post_withdraw_onchain demo_server ''CPN-00AA-00BB'' ''W1'' (Finite 1)
        demo_recipient (Raised ''timeout'') ''t5'')) = coupons demo_server
   \<and> events (snd (post_withdraw_onchain demo_server ''CPN-00AA-00BB'' ''W1'' (Finite 1)
        demo_recipient (Raised ''timeout'') ''t5'')) = events demo_server
   \<and> fst (post_withdraw_onchain demo_server ''CPN-00AA-00BB'' ''W1'' (Finite 1)
        demo_recipient (Raised ''timeout'') ''t5'')
       = ErrorDetails 500 ''on-chain withdraw failed'' ''timeout''"
proof -
  have h: "parseAmountSol (Finite 1) = Some 1
           \<and> getCouponById demo_server ''CPN-00AA-00BB'' (Str ''W1'')
               = Some (demo_coupon (5 / 2) (3 / 2))
           \<and> 1 \<le> number_or_0 (c_remaining_amount_sol (demo_coupon (5 / 2) (3 / 2)))"
    by (simp add: getCouponById_def demo_server_def demo_coupon_def)
  from withdraw_failed_transfer_changes_nothing
         [of demo_server "''CPN-00AA-00BB''" "''W1''" "Finite 1" demo_recipient "''timeout''"
             "''t5''" 1 "demo_coupon (5 / 2) (3 / 2)"] h demo_recipient_nonempty
  show ?thesis by simp
qed

text \<open>
  Claim C5, as the specification states it: the remaining amount decreases by exactly
  the amount. The route stores the difference of two doubles, which is rounded: a
  confirmed withdrawal of \<open>2 ^ -60\<close> from a coupon of 1 appends its event and leaves 1.
  And the route subtracts from the balance it read before it waited: when a payment of 1
  has been handled meanwhile and has left 0.5 of 1.5, the confirmed withdrawal of 1
  appends its event and leaves 0.5.
\<close>

theorem withdraw_rounded_counterexample:
  "coupons (snd (post_withdraw_onchain unit_server ''CPN-00AA-00BB'' ''W1'' (Finite tiny)
       demo_recipient (Confirmed ''SIG123'') ''t1'')) = [demo_coupon 1 1]
   \<and> coupons unit_server = [demo_coupon 1 1]
   \<and> events (snd (post_withdraw_onchain unit_server ''CPN-00AA-00BB'' ''W1'' (Finite tiny)
       demo_recipient (Confirmed ''SIG123'') ''t1''))
     = events unit_server
       @ [demo_event T_withdraw tiny demo_recipient None (Some ''SIG123'') ''t1'']
   \<and> 0 < tiny
   \<and> coupons (run (initial_server ''POOL'') overlap_prefix) = [demo_coupon (3 / 2) (1 / 2)]
   \<and> coupons (run (initial_server ''POOL'') overlap_requests) = [demo_coupon (3 / 2) (1 / 2)]
   \<and> events (run (initial_server ''POOL'') overlap_requests)
     = events (run (initial_server ''POOL'') overlap_prefix)
       @ [demo_event T_withdraw 1 demo_recipient None (Some ''SIG123'') ''t2'']"
  using tiny_positive run_overlap_prefix run_overlap
  by (simp add: unit_server_def demo_coupon_def demo_event_def route_defs
      demo_recipient_nonempty js_sub_1_tiny)

text \<open>
  Claim C5, amended. A WithdrawOnchain call with owner and recipient present and a
  positive amount not above the remaining amount of the coupon found for the id and the
  owner, whose transfer returns a confirmed signature while no other handler runs,
  replaces the remaining amount of that coupon by the remaining amount minus the amount
  rounded to the nearest double (the JavaScript difference), and appends one withdraw
  event with the amount, the signature as \<open>tx_sig\<close> and the recipient as \<open>to_address\<close>; one
  transfer to the recipient is confirmed.
\<close>

theorem withdraw_confirmed_debits:
  assumes "w \<noteq> []" and "r \<noteq> []" and "0 < a"
    and "getCouponById s i (Str w) = Some c"
    and "a \<le> number_or_0 (c_remaining_amount_sol c)"
  shows "\<exists>k < length (coupons s). coupons s ! k = c \<and>
           post_withdraw_onchain s i w (Finite a) r (Confirmed sig) now =
             (CouponEventSig
                (Some (c\<lparr>c_remaining_amount_sol :=
                           json_number (js_sub (number_or_0 (c_remaining_amount_sol c)) a)\<rparr>))
                \<lparr>e_coupon_id = i, e_owner_wallet = w, e_type = T_withdraw, e_amount_sol = a,
                 e_to_address = r, e_note = None, e_tx_sig = Some sig, e_created_at = now\<rparr>
                sig,
              s\<lparr>coupons := (coupons s)
                   [k := c\<lparr>c_remaining_amount_sol :=
                             json_number (js_sub (number_or_0 (c_remaining_amount_sol c)) a)\<rparr>],
                events := events s @
                  [\<lparr>e_coupon_id = i, e_owner_wallet = w, e_type = T_withdraw,
                    e_amount_sol = a, e_to_address = r, e_note = None, e_tx_sig = Some sig,
                    e_created_at = now\<rparr>],
                transfers := transfers s @
                  [\<lparr>t_to = r, t_lamports = math_round (js_mul a LAMPORTS_PER_SOL)\<rparr>]\<rparr>)"
proof -
  obtain k where
    "findIndex (\<lambda>c. c_id c = i \<and> c_owner_wallet c = w) (coupons s) = Some k"
    "k < length (coupons s)" "coupons s ! k = c"
    using getCouponById_index [OF assms(1,4)] by auto
  with assms show ?thesis
    by (auto simp add: post_withdraw_onchain_def withdraw_validate_def withdraw_settle_def
        updateCoupon_def addEvent_def Let_def)
qed

text \<open>The specification's example: 1.0 out of 1.5 with signature SIG123 leaves 0.5.\<close>

theorem withdraw_confirmed_debits_witness:
  "getCouponById demo_server ''CPN-00AA-00BB'' (Str ''W1'') = Some (demo_coupon (5 / 2) (3 / 2))
   \<and> post_withdraw_onchain demo_server ''CPN-00AA-00BB'' ''W1'' (Finite 1) demo_recipient
        (Confirmed ''SIG123'') ''t5'' =
       (CouponEventSig (Some (demo_coupon (5 / 2) (1 / 2)))
          (demo_event T_withdraw 1 demo_recipient None (Some ''SIG123'') ''t5'') ''SIG123'',
        demo_server\<lparr>coupons := [demo_coupon (5 / 2) (1 / 2)],
          events := events demo_server @
            [demo_event T_withdraw 1 demo_recipient None (Some ''SIG123'') ''t5''],
          transfers := transfers demo_server @
            [\<lparr>t_to = demo_recipient, t_lamports = Finite 1000000000\<rparr>]\<rparr>)"
proof -
  have h: "getCouponById demo_server ''CPN-00AA-00BB'' (Str ''W1'')
             = Some (demo_coupon (5 / 2) (3 / 2))"
    by (simp add: getCouponById_def demo_server_def demo_coupon_def)
  have a: "a \<le> number_or_0 (c_remaining_amount_sol (demo_coupon (5 / 2) (3 / 2)))"
    if "a = 1" for a :: rat
    using that by (simp add: demo_coupon_def)
  have r: "number_or_0 (c_remaining_amount_sol (demo_coupon (5 / 2) (3 / 2))) = 3 / 2"
    by (simp add: demo_coupon_def)
  from withdraw_confirmed_debits
         [of "''W1''" demo_recipient 1 demo_server "''CPN-00AA-00BB''"
             "demo_coupon (5 / 2) (3 / 2)" "''SIG123''" "''t5''"] h a demo_recipient_nonempty
  show ?thesis
    by (simp add: r js_sub_3_2_1 lamports_1)
       (simp add: demo_server_def demo_coupon_def demo_event_def)
qed

text \<open>
  Claim C6. A Pay call with owner, coupon id and merchant present and a positive finite
  amount above the remaining amount of the coupon found for the id and the owner fails
  with "insufficient coupon balance" and leaves the whole state as it was.
\<close>

theorem pay_insufficient_balance:
  assumes "w \<noteq> []" and "i \<noteq> []" and "m \<noteq> []"
    and "parseAmountSol n = Some a"
    and "getCouponById s i (Str w) = Some c"
    and "a > number_or_0 (c_remaining_amount_sol c)"
  shows "post_pay s w i n m note now = (Error 400 ''insufficient coupon balance'', s)"
  using assms by (simp add: post_pay_def)

text \<open>The specification's example: 5.0 out of 1.5.\<close>

theorem pay_insufficient_balance_witness:
  "parseAmountSol (Finite 5) = Some 5
   \<and> getCouponById demo_server ''CPN-00AA-00BB'' (Str ''W1'')
       = Some (demo_coupon (5 / 2) (3 / 2))
   \<and> 5 > number_or_0 (c_remaining_amount_sol (demo_coupon (5 / 2) (3 / 2)))
   \<and> post_pay demo_server ''W1'' ''CPN-00AA-00BB'' (Finite 5) ''M1'' None ''t5''
       = (Error 400 ''insufficient coupon balance'', demo_server)"
proof -
  have h1: "''W1'' \<noteq> []" and h2: "''CPN-00AA-00BB'' \<noteq> []" and h3: "''M1'' \<noteq> []" by simp_all
  have h4: "parseAmountSol (Finite 5) = Some 5" by simp
  have h5: "getCouponById demo_server ''CPN-00AA-00BB'' (Str ''W1'')
              = Some (demo_coupon (5 / 2) (3 / 2))"
    by (simp add: getCouponById_def demo_server_def demo_coupon_def)
  have h6: "5 > number_or_0 (c_remaining_amount_sol (demo_coupon (5 / 2) (3 / 2)))"
    by (simp add: demo_coupon_def)
  from pay_insufficient_balance [OF h1 h2 h3 h4 h5 h6] h4 h5 h6 show ?thesis by blast
qed

text \<open>
  Claim C7, as the specification states it: the remaining amount decreases by exactly
  the amount and the pay event carries the supplied note. The route stores the rounded
  difference of two doubles and \<open>note || null\<close>: a payment of \<open>2 ^ -60\<close> with an empty note
  from a coupon of 1 leaves 1 and appends an event whose note is null.
\<close>

theorem pay_rounded_empty_note_counterexample:
  "coupons (snd (post_pay unit_server ''W1'' ''CPN-00AA-00BB'' (Finite tiny) ''M1'' (Some [])
       ''t1'')) = [demo_coupon 1 1]
   \<and> coupons unit_server = [demo_coupon 1 1]
   \<and> events (snd (post_pay unit_server ''W1'' ''CPN-00AA-00BB'' (Finite tiny) ''M1'' (Some [])
       ''t1''))
     = events unit_server @ [demo_event T_pay tiny ''M1'' None None ''t1'']
   \<and> 0 < tiny
   \<and> e_note (demo_event T_pay tiny ''M1'' None None ''t1'') \<noteq> Some []"
  using tiny_positive
  by (simp add: unit_server_def demo_coupon_def demo_event_def route_defs js_sub_1_tiny)

text \<open>
  Claim C7, amended. A Pay call with owner, coupon id and merchant present and a positive
  amount not above the remaining amount of the coupon found for the id and the owner
  replaces the remaining amount of that coupon by the remaining amount minus the amount
  rounded to the nearest double (the JavaScript difference), and appends one pay event
  with the amount, the merchant as \<open>to_address\<close>, \<open>tx_sig\<close> null, and the supplied note,
  or null when the supplied note is absent or empty; no transfer is made.
\<close>

theorem pay_debits:
  assumes "w \<noteq> []" and "i \<noteq> []" and "m \<noteq> []"
    and "0 < a"
    and "getCouponById s i (Str w) = Some c"
    and "a \<le> number_or_0 (c_remaining_amount_sol c)"
  shows "\<exists>k < length (coupons s). coupons s ! k = c \<and>
           post_pay s w i (Finite a) m note now =
             (CouponEvent
                (Some (c\<lparr>c_remaining_amount_sol :=
                           json_number (js_sub (number_or_0 (c_remaining_amount_sol c)) a)\<rparr>))
                \<lparr>e_coupon_id = i, e_owner_wallet = w, e_type = T_pay, e_amount_sol = a,
                 e_to_address = m, e_note = or_null note, e_tx_sig = None, e_created_at = now\<rparr>,
              s\<lparr>coupons := (coupons s)
                   [k := c\<lparr>c_remaining_amount_sol :=
                             json_number (js_sub (number_or_0 (c_remaining_amount_sol c)) a)\<rparr>],
                events := events s @
                  [\<lparr>e_coupon_id = i, e_owner_wallet = w, e_type = T_pay, e_amount_sol = a,
                    e_to_address = m, e_note = or_null note, e_tx_sig = None,
                    e_created_at = now\<rparr>]\<rparr>)"
proof -
  obtain k where
    "findIndex (\<lambda>c. c_id c = i \<and> c_owner_wallet c = w) (coupons s) = Some k"
    "k < length (coupons s)" "coupons s ! k = c"
    using getCouponById_index [OF assms(1,5)] by auto
  with assms show ?thesis
    by (auto simp add: post_pay_def updateCoupon_def addEvent_def Let_def)
qed

text \<open>The specification's example, from the balance 1.5: a payment of 1.0 leaves 0.5.\<close>

theorem pay_debits_witness:
  "getCouponById demo_server ''CPN-00AA-00BB'' (Str ''W1'') = Some (demo_coupon (5 / 2) (3 / 2))
   \<and> post_pay demo_server ''W1'' ''CPN-00AA-00BB'' (Finite 1) ''M1'' (Some ''tea'') ''t5'' =
       (CouponEvent (Some (demo_coupon (5 / 2) (1 / 2)))
          (demo_event T_pay 1 ''M1'' (Some ''tea'') None ''t5''),
        demo_server\<lparr>coupons := [demo_coupon (5 / 2) (1 / 2)],
          events := events demo_server @
            [demo_event T_pay 1 ''M1'' (Some ''tea'') None ''t5'']\<rparr>)"
proof -
  have h: "getCouponById demo_server ''CPN-00AA-00BB'' (Str ''W1'')
             = Some (demo_coupon (5 / 2) (3 / 2))"
    by (simp add: getCouponById_def demo_server_def demo_coupon_def)
  have a: "a \<le> number_or_0 (c_remaining_amount_sol (demo_coupon (5 / 2) (3 / 2)))"
    if "a = 1" for a :: rat
    using that by (simp add: demo_coupon_def)
  have r: "number_or_0 (c_remaining_amount_sol (demo_coupon (5 / 2) (3 / 2))) = 3 / 2"
    by (simp add: demo_coupon_def)
  from pay_debits
         [of "''W1''" "''CPN-00AA-00BB''" "''M1''" 1 demo_server "demo_coupon (5 / 2) (3 / 2)"
             "Some ''tea''" "''t5''"] h a
  show ?thesis
    by (simp add: r js_sub_3_2_1)
       (simp add: demo_server_def demo_coupon_def demo_event_def)
qed

text \<open>
  Claim C8. A Create call with owner and label present and a finite positive amount
  returns a coupon whose initial and remaining amounts are the amount, appends it to the
  coupons, and appends one create event for it with the amount, the owner as
  \<open>to_address\<close> and \<open>tx_sig\<close> null.
\<close>

theorem create_coupon_and_event:
  assumes "w \<noteq> []" and "l \<noteq> []" and "0 < a"
  shows "\<exists>c. post_coupons s w l (Finite a) x new_id now =
           (Created c,
            s\<lparr>coupons := coupons s @ [c],
              events := events s @
                [\<lparr>e_coupon_id = c_id c, e_owner_wallet = w, e_type = T_create,
                  e_amount_sol = a, e_to_address = w, e_note = None, e_tx_sig = None,
                  e_created_at = now\<rparr>]\<rparr>)
         \<and> c_id c = new_id \<and> c_owner_wallet c = w \<and> c_label c = l
         \<and> c_initial_amount_sol c = a \<and> c_remaining_amount_sol c = Some a"
  using assms by (simp add: post_coupons_def createCoupon_def addEvent_def Let_def)

text \<open>The specification's example: Create(owner W1, label Lunch, amount 2.5).\<close>

theorem create_coupon_and_event_witness:
  "post_coupons (initial_server ''POOL'') ''W1'' ''Lunch'' (Finite (5 / 2)) None
       ''CPN-00AA-00BB'' ''t0'' =
     (Created (demo_coupon (5 / 2) (5 / 2)),
      \<lparr>POOL_ADDRESS = ''POOL'', coupons = [demo_coupon (5 / 2) (5 / 2)],
       events = [demo_event T_create (5 / 2) ''W1'' None None ''t0''], transfers = [],
       awaiting = []\<rparr>)"
  using create_coupon_and_event
          [of "''W1''" "''Lunch''" "5 / 2" "initial_server ''POOL''" None "''CPN-00AA-00BB''"
              "''t0''"]
  by (auto simp add: initial_server_def demo_coupon_def demo_event_def post_coupons_def
      createCoupon_def addEvent_def Let_def)

text \<open>
  Claim C9. The coupons in the response of the listing route are owned by the wallet of
  the query, and so are the events in it; the same holds for the history route, whose
  coupon and events also have the id of the query. The history route answers
  "coupon not found for this wallet" when the wallet is present and no stored coupon
  with the id has that owner, whatever coupons of other owners have the id.
\<close>

theorem reads_are_owner_scoped:
  "(\<forall>c \<in> set (response_coupons (get_coupons s w)). c_owner_wallet c = w)
   \<and> (\<forall>e \<in> set (response_events (get_coupons s w)). e_owner_wallet e = w)
   \<and> (\<forall>c \<in> set (response_coupons (get_history s i w)). c_owner_wallet c = w \<and> c_id c = i)
   \<and> (\<forall>e \<in> set (response_events (get_history s i w)). e_owner_wallet e = w \<and> e_coupon_id e = i)
   \<and> (w \<noteq> [] \<and> (\<forall>c \<in> set (coupons s). c_id c = i \<longrightarrow> c_owner_wallet c \<noteq> w)
        \<longrightarrow> get_history s i w = Error 404 ''coupon not found for this wallet'')"
proof -
  have list_c: "\<forall>c \<in> set (response_coupons (get_coupons s w)). c_owner_wallet c = w"
    by (auto simp: get_coupons_def getCouponsByOwner_def)
  have list_e: "\<forall>e \<in> set (response_events (get_coupons s w)). e_owner_wallet e = w"
    by (auto simp: get_coupons_def getCouponsByOwner_def getEventsForCoupon_def)
  have hist_c: "\<forall>c \<in> set (response_coupons (get_history s i w)). c_owner_wallet c = w \<and> c_id c = i"
    by (auto simp: get_history_def getCouponById_def find_Some_iff split: option.splits)
  have hist_e: "\<forall>e \<in> set (response_events (get_history s i w)).
                  e_owner_wallet e = w \<and> e_coupon_id e = i"
    by (auto simp: get_history_def getEventsForCoupon_def split: option.splits)
  have not_found: "get_history s i w = Error 404 ''coupon not found for this wallet''"
    if "w \<noteq> []" "\<forall>c \<in> set (coupons s). c_id c = i \<longrightarrow> c_owner_wallet c \<noteq> w"
  proof -
    have "getCouponById s i (Str w) = None"
      using that by (auto simp: getCouponById_def find_None_iff)
    then show ?thesis using that(1) by (simp add: get_history_def)
  qed
  from list_c list_e hist_c hist_e not_found show ?thesis by blast
qed

text \<open>
  In \<open>two_owner_server\<close> the wallets W1 and W2 each own a coupon with the same id: the
  listing of W2 holds W2's coupon and event only, and the history of that id for W3 is
  not found.
\<close>

theorem reads_are_owner_scoped_witness:
  "response_coupons (get_coupons two_owner_server ''W2'') = [other_coupon]
   \<and> response_events (get_coupons two_owner_server ''W2'') = [other_event]
   \<and> response_coupons (get_history two_owner_server ''CPN-00AA-00BB'' ''W2'') = [other_coupon]
   \<and> response_events (get_history two_owner_server ''CPN-00AA-00BB'' ''W2'') = [other_event]
   \<and> c_owner_wallet other_coupon = ''W2'' \<and> e_owner_wallet other_event = ''W2''
   \<and> ''W3'' \<noteq> []
   \<and> map coupon_key (coupons two_owner_server)
       = [(''CPN-00AA-00BB'', ''W1''), (''CPN-00AA-00BB'', ''W2'')]
   \<and> get_history two_owner_server ''CPN-00AA-00BB'' ''W3''
       = Error 404 ''coupon not found for this wallet''"
proof -
  have lists: "response_coupons (get_coupons two_owner_server ''W2'') = [other_coupon]
      \<and> response_events (get_coupons two_owner_server ''W2'') = [other_event]
      \<and> response_coupons (get_history two_owner_server ''CPN-00AA-00BB'' ''W2'') = [other_coupon]
      \<and> response_events (get_history two_owner_server ''CPN-00AA-00BB'' ''W2'') = [other_event]"
    by (simp add: get_coupons_def get_history_def getCouponsByOwner_def getCouponById_def
        getEventsForCoupon_def two_owner_server_def demo_server_def demo_coupon_def
        demo_event_def other_coupon_def other_event_def)
  have h: "\<forall>c \<in> set (coupons two_owner_server).
             c_id c = ''CPN-00AA-00BB'' \<longrightarrow> c_owner_wallet c \<noteq> ''W3''"
    by (simp add: two_owner_server_def demo_server_def demo_coupon_def other_coupon_def)
  have keys: "map coupon_key (coupons two_owner_server)
               = [(''CPN-00AA-00BB'', ''W1''), (''CPN-00AA-00BB'', ''W2'')]"
    by (simp add: two_owner_server_def demo_server_def demo_coupon_def other_coupon_def
        coupon_key_def)
  from reads_are_owner_scoped [of two_owner_server "''W2''" "''CPN-00AA-00BB''"]
       reads_are_owner_scoped [of two_owner_server "''W3''" "''CPN-00AA-00BB''"] lists h keys
  show ?thesis by simp
qed

text \<open>
  Claim C10. With the owner argument undefined, null or the empty string,
  \<open>getCouponById\<close> returns the first stored coupon with the id, whoever owns it; with a
  non-empty owner it returns the first stored coupon with the id and that owner.
\<close>

theorem getCouponById_owner_filter:
  "getCouponById s i Undefined = find (\<lambda>c. c_id c = i) (coupons s)
   \<and> getCouponById s i Null = find (\<lambda>c. c_id c = i) (coupons s)
   \<and> getCouponById s i (Str []) = find (\<lambda>c. c_id c = i) (coupons s)
   \<and> (w \<noteq> [] \<longrightarrow>
        getCouponById s i (Str w) = find (\<lambda>c. c_id c = i \<and> c_owner_wallet c = w) (coupons s))"
  by (simp add: getCouponById_def)

theorem getCouponById_owner_filter_witness:
  "getCouponById (two_owner_server\<lparr>coupons := rev (coupons two_owner_server)\<rparr>)
       ''CPN-00AA-00BB'' (Str []) = Some other_coupon
   \<and> ''W1'' \<noteq> []
   \<and> getCouponById (two_owner_server\<lparr>coupons := rev (coupons two_owner_server)\<rparr>)
       ''CPN-00AA-00BB'' (Str ''W1'') = Some (demo_coupon (5 / 2) (3 / 2))"
  using getCouponById_owner_filter
          [of "two_owner_server\<lparr>coupons := rev (coupons two_owner_server)\<rparr>"
              "''CPN-00AA-00BB''" "''W1''"]
  by (simp add: two_owner_server_def demo_server_def demo_coupon_def other_coupon_def)

end
